theory Spec2Isabelle
  imports Main "HOL-Library.AList" "HOL-Library.Multiset" "HOL-Library.Option_ord"
begin

section \<open>Python values used by \<open>spanner_orm/admin/metadata.py\<close>\<close>

text \<open>
  The exceptions the module itself can raise are \<open>AssertionError\<close> (the three
  \<open>assert\<close> statements, with assertions enabled) and \<open>KeyError\<close> (a subscript on a plain
  \<open>dict\<close>). Everything a collaborator raises (\<open>where\<close>, \<open>validate\<close>, \<open>ddl\<close>,
  \<open>update_schema\<close>) is carried unchanged as \<open>Raised\<close> with the exception's name.
\<close>

datatype error = AssertionError | KeyError string | Raised string

text \<open>
  A \<open>dict\<close> keeps insertion order: storing under a key that is present replaces the value
  in place, storing under a new key appends. An association list with \<open>AList.update\<close>
  behaves the same way; \<open>keys\<close> is the iteration order.
\<close>

type_synonym ('k, 'v) dict = "('k \<times> 'v) list"

definition keys :: "('k, 'v) dict \<Rightarrow> 'k list" where
  "keys d = map fst d"

definition setitem :: "('k, 'v) dict \<Rightarrow> 'k \<Rightarrow> 'v \<Rightarrow> ('k, 'v) dict" where
  "setitem d k v = AList.update k v d"

text \<open>\<open>d[k]\<close> on a plain \<open>dict\<close> with string keys: \<open>KeyError(k)\<close> when \<open>k\<close> is missing.\<close>

definition getitem :: "(string, 'v) dict \<Rightarrow> string \<Rightarrow> error + 'v" where
  "getitem d k = (case map_of d k of None \<Rightarrow> Inl (KeyError k) | Some v \<Rightarrow> Inr v)"

text \<open>
  \<open>d[k]\<close> on a \<open>defaultdict\<close> whose factory yields \<open>dflt\<close>: a missing key is first stored
  with the default, so the read returns the value together with the updated dictionary.
\<close>

definition dd_getitem :: "'v \<Rightarrow> ('k, 'v) dict \<Rightarrow> 'k \<Rightarrow> 'v \<times> ('k, 'v) dict" where
  "dd_getitem dflt d k =
     (case map_of d k of None \<Rightarrow> (dflt, setitem d k dflt) | Some v \<Rightarrow> (v, d))"

section \<open>Catalog rows and conditions\<close>

text \<open>
  The row classes live in \<open>spanner_orm.schemas\<close>; the module reads the attributes below.
  The fields are prefixed (\<open>cs_\<close>, \<open>ics_\<close>, \<open>ix_\<close>) because the three classes share
  attribute names. \<open>cs_type\<close> is the result of \<open>schema.type()\<close>, an opaque field type.
  An index-column row also carries the three columns the module never reads but names
  in the conditions of its fetch: \<open>table_catalog\<close>, \<open>table_schema\<close> and \<open>ordinal_position\<close>.
\<close>

record 'ty column_schema =
  cs_table_name :: string
  cs_column_name :: string
  cs_type :: 'ty

record index_column_schema =
  ics_table_catalog :: string
  ics_table_schema :: string
  ics_table_name :: string
  ics_index_name :: string
  ics_column_name :: string
  ics_ordinal_position :: "int option"

record index_schema =
  ix_table_name :: string
  ix_index_name :: string
  ix_index_type :: string
  ix_is_unique :: bool
  ix_index_state :: string

datatype pyval = PStr string | PInt int | PNone

datatype OrderType = ASC | DESC

datatype condition =
    EqualityCondition string pyval
  | InequalityCondition string pyval
  | OrderByCondition "(string \<times> OrderType) list"

section \<open>Collaborators and their observable calls\<close>

text \<open>
  Every call the module makes to a collaborator is recorded as an event, in program
  order. An operation returns its outcome paired with the events it caused.
\<close>

datatype relation = ColumnSchema | IndexColumnSchema | IndexSchema

datatype 'txn event =
    Where relation "'txn option" "condition list"
  | Validate
  | Ddl
  | UpdateSchema string

type_synonym ('txn, 'a) io = "(error + 'a) \<times> 'txn event list"

definition and_then :: "('txn, 'a) io \<Rightarrow> ('a \<Rightarrow> ('txn, 'b) io) \<Rightarrow> ('txn, 'b) io" where
  "and_then m f =
     (case m of
        (Inl e, tr) \<Rightarrow> (Inl e, tr)
      | (Inr x, tr) \<Rightarrow> (case f x of (r, tr') \<Rightarrow> (r, tr @ tr')))"

definition call :: "'txn event \<Rightarrow> error + 'a \<Rightarrow> ('txn, 'a) io" where
  "call ev r = (r, [ev])"

definition pure :: "error + 'a \<Rightarrow> ('txn, 'a) io" where
  "pure r = (r, [])"

text \<open>
  A call \<open>cls.where(transaction, *conditions)\<close> of a row class: the primitive is applied to
  the handle and the conditions, and the event records that same handle and those same
  conditions.
\<close>

definition fetch ::
  "relation \<Rightarrow> ('txn option \<Rightarrow> condition list \<Rightarrow> error + 'r) \<Rightarrow> 'txn option \<Rightarrow> condition list \<Rightarrow>
   ('txn, 'r) io"
where
  "fetch rel where_primitive transaction conditions =
     call (Where rel transaction conditions) (where_primitive transaction conditions)"

text \<open>
  The fetch primitive \<open>where\<close> of each row class and \<open>DatabaseAdminApi.update_schema\<close>
  are parameters of the model: each takes what the module passes and either raises or
  returns.
\<close>

record ('txn, 'ty) env =
  ColumnSchema_where :: "'txn option \<Rightarrow> condition list \<Rightarrow> error + 'ty column_schema list"
  IndexColumnSchema_where :: "'txn option \<Rightarrow> condition list \<Rightarrow> error + index_column_schema list"
  IndexSchema_where :: "'txn option \<Rightarrow> condition list \<Rightarrow> error + index_schema list"
  update_schema :: "string \<Rightarrow> error + unit"

section \<open>\<open>DatabaseMetadata._tables\<close>\<close>

definition namespace_conditions :: "condition list" where
  "namespace_conditions =
     [EqualityCondition ''table_catalog'' (PStr ''''),
      EqualityCondition ''table_schema'' (PStr '''')]"

text \<open>The loop of lines 92-93: \<open>tables[schema.table_name][schema.column_name] = schema.type()\<close>.\<close>

fun tables_loop ::
  "(string, (string, 'ty) dict) dict \<Rightarrow> 'ty column_schema list \<Rightarrow> (string, (string, 'ty) dict) dict"
where
  "tables_loop tables [] = tables"
| "tables_loop tables (schema # schemas) =
     (case dd_getitem [] tables (cs_table_name schema) of
        (inner, tables1) \<Rightarrow>
          tables_loop
            (setitem tables1 (cs_table_name schema)
               (setitem inner (cs_column_name schema) (cs_type schema)))
            schemas)"

definition tables_of ::
  "('txn, 'ty) env \<Rightarrow> 'txn option \<Rightarrow> ('txn, (string, (string, 'ty) dict) dict) io"
where
  "tables_of env transaction =
     and_then
       (fetch ColumnSchema (ColumnSchema_where env) transaction namespace_conditions)
       (\<lambda>schemas. pure (Inr (tables_loop [] schemas)))"

section \<open>\<open>DatabaseMetadata._indexes\<close>\<close>

definition index_column_conditions :: "condition list" where
  "index_column_conditions =
     namespace_conditions @
     [InequalityCondition ''ordinal_position'' PNone,
      OrderByCondition [(''ordinal_position'', ASC)]]"

text \<open>The loop of lines 110-112: \<open>index_columns[key].append(schema.column_name)\<close>.\<close>

fun index_columns_loop ::
  "(string \<times> string, string list) dict \<Rightarrow> index_column_schema list \<Rightarrow>
   (string \<times> string, string list) dict"
where
  "index_columns_loop index_columns [] = index_columns"
| "index_columns_loop index_columns (schema # schemas) =
     (let key = (ics_table_name schema, ics_index_name schema) in
      case dd_getitem [] index_columns key of
        (cols, index_columns1) \<Rightarrow>
          index_columns_loop
            (setitem index_columns1 key (cols @ [ics_column_name schema]))
            schemas)"

text \<open>The four-key dictionary literal of lines 119-124.\<close>

record index_entry =
  columns :: "string list"
  type :: string
  unique :: bool
  state :: string

text \<open>
  The loop of lines 118-124. Reading \<open>index_columns[...]\<close> may store an empty list in
  \<open>index_columns\<close>, so that dictionary is threaded through the loop as well.
\<close>

fun indexes_loop ::
  "(string \<times> string, string list) dict \<Rightarrow> (string, (string, index_entry) dict) dict \<Rightarrow>
   index_schema list \<Rightarrow> (string, (string, index_entry) dict) dict"
where
  "indexes_loop index_columns indexes [] = indexes"
| "indexes_loop index_columns indexes (schema # schemas) =
     (case dd_getitem [] index_columns (ix_table_name schema, ix_index_name schema) of
        (cols, index_columns1) \<Rightarrow>
          (let entry = \<lparr>columns = cols, type = ix_index_type schema,
                        unique = ix_is_unique schema, state = ix_index_state schema\<rparr> in
           case dd_getitem [] indexes (ix_table_name schema) of
             (inner, indexes1) \<Rightarrow>
               indexes_loop index_columns1
                 (setitem indexes1 (ix_table_name schema)
                    (setitem inner (ix_index_name schema) entry))
                 schemas))"

definition indexes_of ::
  "('txn, 'ty) env \<Rightarrow> 'txn option \<Rightarrow> ('txn, (string, (string, index_entry) dict) dict) io"
where
  "indexes_of env transaction =
     and_then
       (fetch IndexColumnSchema (IndexColumnSchema_where env) transaction
          index_column_conditions)
       (\<lambda>index_column_schemas.
          and_then
            (fetch IndexSchema (IndexSchema_where env) transaction namespace_conditions)
            (\<lambda>index_schemas.
               pure (Inr (indexes_loop (index_columns_loop [] index_column_schemas) []
                            index_schemas))))"

section \<open>\<open>DatabaseMetadata.models\<close>\<close>

text \<open>
  The class built by \<open>type('Model_{}'.format(table_name), (Model,), {...})\<close>: its name and
  the values its three accessors return.
\<close>

record 'ty model =
  name :: string
  primary_index_keys :: "string list"
  schema :: "(string, 'ty) dict"
  table :: string

text \<open>
  The loop of lines 74-82 over \<open>tables.items()\<close> (the loop variable \<open>schema\<close> is
  written \<open>table_schema\<close>, apart from the accessor of that name). \<open>indexes\<close> is a \<open>defaultdict\<close>, so
  \<open>indexes[table_name]\<close> never raises; the subscript \<open>['PRIMARY_KEY']\<close> on the inner plain
  dictionary does. The entry always has the key \<open>'columns'\<close>.
\<close>

fun models_loop ::
  "(string, (string, index_entry) dict) dict \<Rightarrow> (string, 'ty model) dict \<Rightarrow>
   (string \<times> (string, 'ty) dict) list \<Rightarrow> error + (string, 'ty model) dict"
where
  "models_loop indexes results [] = Inr results"
| "models_loop indexes results ((table_name, table_schema) # items) =
     (case dd_getitem [] indexes table_name of
        (inner, indexes1) \<Rightarrow>
          (case getitem inner ''PRIMARY_KEY'' of
             Inl e \<Rightarrow> Inl e
           | Inr entry \<Rightarrow>
               models_loop indexes1
                 (setitem results table_name
                    \<lparr>name = ''Model_'' @ table_name, primary_index_keys = columns entry,
                     schema = table_schema, table = table_name\<rparr>)
                 items))"

definition models ::
  "('txn, 'ty) env \<Rightarrow> 'txn option \<Rightarrow> ('txn, (string, 'ty model) dict) io"
where
  "models env transaction =
     and_then (tables_of env transaction)
       (\<lambda>tables.
          and_then (indexes_of env transaction)
            (\<lambda>indexes. pure (models_loop indexes [] tables)))"

section \<open>Schema changes\<close>

text \<open>
  A schema-change object (\<open>spanner_orm.update\<close>): its class, and its methods \<open>table()\<close>,
  \<open>validate(model)\<close> or \<open>validate()\<close>, \<open>ddl(model)\<close> or \<open>ddl()\<close>. A call without the model
  argument is the argument \<open>None\<close>.
\<close>

datatype update_class = ColumnUpdate | CreateTableUpdate | IndexUpdate

record 'ty schema_change =
  sc_class :: update_class
  sc_table :: string
  sc_validate :: "'ty model option \<Rightarrow> error + unit"
  sc_ddl :: "'ty model option \<Rightarrow> error + string"

definition isinstance :: "'ty schema_change \<Rightarrow> update_class \<Rightarrow> bool" where
  "isinstance schema_change c = (sc_class schema_change = c)"

definition column_update :: "('txn, 'ty) env \<Rightarrow> 'ty schema_change \<Rightarrow> ('txn, unit) io" where
  "column_update env schema_change =
     (if \<not> isinstance schema_change ColumnUpdate then pure (Inl AssertionError)
      else
        and_then (models env None) (\<lambda>all_models.
        and_then (pure (getitem all_models (sc_table schema_change))) (\<lambda>model.
        and_then (call Validate (sc_validate schema_change (Some model))) (\<lambda>_.
        and_then (call Ddl (sc_ddl schema_change (Some model))) (\<lambda>text.
        call (UpdateSchema text) (update_schema env text))))))"

definition create_table :: "('txn, 'ty) env \<Rightarrow> 'ty schema_change \<Rightarrow> ('txn, unit) io" where
  "create_table env schema_change =
     (if \<not> isinstance schema_change CreateTableUpdate then pure (Inl AssertionError)
      else
        and_then (models env None) (\<lambda>all_models.
        if sc_table schema_change \<in> set (keys all_models) then pure (Inl AssertionError)
        else
          and_then (call Validate (sc_validate schema_change None)) (\<lambda>_.
          and_then (call Ddl (sc_ddl schema_change None)) (\<lambda>text.
          call (UpdateSchema text) (update_schema env text)))))"

definition index_update :: "('txn, 'ty) env \<Rightarrow> 'ty schema_change \<Rightarrow> ('txn, unit) io" where
  "index_update env schema_change =
     (if \<not> isinstance schema_change IndexUpdate then pure (Inl AssertionError)
      else
        and_then (models env None) (\<lambda>all_models.
        and_then (pure (getitem all_models (sc_table schema_change))) (\<lambda>model.
        and_then (call Validate (sc_validate schema_change (Some model))) (\<lambda>_.
        and_then (call Ddl (sc_ddl schema_change (Some model))) (\<lambda>text.
        call (UpdateSchema text) (update_schema env text))))))"

section \<open>Notions used in the statements\<close>

text \<open>Reading \<open>d[a][b]\<close> without raising: \<open>None\<close> when either key is missing.\<close>

definition nested_lookup :: "('a, ('b, 'v) dict) dict \<Rightarrow> 'a \<Rightarrow> 'b \<Rightarrow> 'v option" where
  "nested_lookup d a b = (case map_of d a of None \<Rightarrow> None | Some inner \<Rightarrow> map_of inner b)"

text \<open>The value a \<open>defaultdict(list)\<close> yields for a key, the empty list when it is missing.\<close>

definition dd_lookup :: "('k, 'v list) dict \<Rightarrow> 'k \<Rightarrow> 'v list" where
  "dd_lookup d k = (case map_of d k of None \<Rightarrow> [] | Some v \<Rightarrow> v)"

text \<open>
  The rows of the index-column relation that lie in the catalog and schema with the
  empty name, belong to one (table, index) pair and have an ordinal position.
\<close>

definition index_rows :: "index_column_schema list \<Rightarrow> string \<Rightarrow> string \<Rightarrow> index_column_schema list" where
  "index_rows relation t i =
     filter (\<lambda>r. ics_table_catalog r = '''' \<and> ics_table_schema r = '''' \<and>
                ics_table_name r = t \<and> ics_index_name r = i \<and>
                ics_ordinal_position r \<noteq> None) relation"

text \<open>
  Modelled from the spec: the value of a named column of an index-column row
  (\<open>spanner_orm.schemas.index_column\<close> is not part of this module). A name the relation
  does not have reads as \<open>PNone\<close>.
\<close>

definition ics_column :: "string \<Rightarrow> index_column_schema \<Rightarrow> pyval" where
  "ics_column c r =
     (if c = ''table_catalog'' then PStr (ics_table_catalog r)
      else if c = ''table_schema'' then PStr (ics_table_schema r)
      else if c = ''table_name'' then PStr (ics_table_name r)
      else if c = ''index_name'' then PStr (ics_index_name r)
      else if c = ''column_name'' then PStr (ics_column_name r)
      else if c = ''ordinal_position'' then
        (case ics_ordinal_position r of None \<Rightarrow> PNone | Some n \<Rightarrow> PInt n)
      else PNone)"

text \<open>
  Modelled from the spec: what a condition (\<open>spanner_orm.condition\<close> is not part of this
  module) asks of the rows a fetch returns. An equality condition keeps the rows whose
  column has the value; an inequality condition keeps the rows whose column is present
  and differs from the value, so that with the value \<open>None\<close> it keeps the rows whose column
  is present; an order-by condition keeps every row.
\<close>

fun satisfies :: "(string \<Rightarrow> 'r \<Rightarrow> pyval) \<Rightarrow> condition \<Rightarrow> 'r \<Rightarrow> bool" where
  "satisfies col (EqualityCondition c v) r = (col c r = v)"
| "satisfies col (InequalityCondition c v) r = (col c r \<noteq> PNone \<and> col c r \<noteq> v)"
| "satisfies col (OrderByCondition orderings) r = True"

text \<open>
  Modelled from the spec: the order of column values, an absent value first, integers
  by size, strings by their characters; values of different kinds are not compared.
\<close>

fun pyval_le :: "pyval \<Rightarrow> pyval \<Rightarrow> bool" where
  "pyval_le PNone v = True"
| "pyval_le (PInt a) (PInt b) = (a \<le> b)"
| "pyval_le (PStr a) (PStr b) = lexordp_eq (map of_char a :: nat list) (map of_char b)"
| "pyval_le u v = False"

text \<open>
  Modelled from the spec: a row may come before another under a list of orderings when,
  at the first ordering whose column differs between them, it is the smaller one for
  \<open>ASC\<close> and the larger one for \<open>DESC\<close>.
\<close>

fun precedes :: "(string \<Rightarrow> 'r \<Rightarrow> pyval) \<Rightarrow> (string \<times> OrderType) list \<Rightarrow> 'r \<Rightarrow> 'r \<Rightarrow> bool" where
  "precedes col [] a b = True"
| "precedes col ((c, d) # orderings) a b =
     (if col c a = col c b then precedes col orderings a b
      else (case d of ASC \<Rightarrow> pyval_le (col c a) (col c b)
                    | DESC \<Rightarrow> pyval_le (col c b) (col c a)))"

fun ordered :: "(string \<Rightarrow> 'r \<Rightarrow> pyval) \<Rightarrow> condition \<Rightarrow> 'r list \<Rightarrow> bool" where
  "ordered col (OrderByCondition orderings) rows = sorted_wrt (precedes col orderings) rows"
| "ordered col (EqualityCondition c v) rows = True"
| "ordered col (InequalityCondition c v) rows = True"

text \<open>
  Modelled from the spec: the contract of the fetch primitive \<open>where\<close>, which is not part
  of this module, for the conditions it is given. It honours the filter when it returns
  exactly the rows of the relation that satisfy every condition given (each as often as
  it occurs), and it honours the order when the rows it returns are in the order every
  order-by condition given asks for. Both depend on the conditions: with no condition
  given, every row is returned and in any order.
\<close>

definition honours_filter ::
  "(string \<Rightarrow> 'r \<Rightarrow> pyval) \<Rightarrow> 'r list \<Rightarrow> condition list \<Rightarrow> 'r list \<Rightarrow> bool"
where
  "honours_filter col relation conditions fetched \<longleftrightarrow>
     mset fetched = mset (filter (\<lambda>r. list_all (\<lambda>c. satisfies col c r) conditions) relation)"

definition honours_order ::
  "(string \<Rightarrow> 'r \<Rightarrow> pyval) \<Rightarrow> condition list \<Rightarrow> 'r list \<Rightarrow> bool"
where
  "honours_order col conditions fetched \<longleftrightarrow> list_all (\<lambda>c. ordered col c fetched) conditions"

text \<open>The DDL texts handed to \<open>DatabaseAdminApi.update_schema\<close> during a run, in order.\<close>

definition submissions :: "'txn event list \<Rightarrow> string list" where
  "submissions tr = concat (map (\<lambda>ev. case ev of UpdateSchema text \<Rightarrow> [text] | _ \<Rightarrow> []) tr)"

text \<open>
  A catalog whose three relations hold the given rows, whatever transaction and
  conditions are passed, and an admin API that accepts every statement; used for the
  concrete runs below.
\<close>

definition fixed_catalog ::
  "'ty column_schema list \<Rightarrow> index_column_schema list \<Rightarrow> index_schema list \<Rightarrow> (nat, 'ty) env"
where
  "fixed_catalog cs ics ixs =
     \<lparr>ColumnSchema_where = (\<lambda>_ _. Inr cs), IndexColumnSchema_where = (\<lambda>_ _. Inr ics),
      IndexSchema_where = (\<lambda>_ _. Inr ixs), update_schema = (\<lambda>_. Inr ())\<rparr>"

section \<open>Concrete catalogs and requests\<close>

text \<open>
  The catalog of one table \<open>Users\<close> with columns \<open>id\<close> and \<open>name\<close> and the index
  \<open>PRIMARY_KEY\<close> on \<open>id\<close>, and requests whose \<open>validate\<close> accepts or rejects.
\<close>

definition users_columns :: "string column_schema list" where
  "users_columns =
     [\<lparr>cs_table_name = ''Users'', cs_column_name = ''id'', cs_type = ''INT64''\<rparr>,
      \<lparr>cs_table_name = ''Users'', cs_column_name = ''name'', cs_type = ''STRING''\<rparr>]"

definition overwriting_columns :: "string column_schema list" where
  "overwriting_columns =
     [\<lparr>cs_table_name = ''Users'', cs_column_name = ''name'', cs_type = ''STRING''\<rparr>,
      \<lparr>cs_table_name = ''Orders'', cs_column_name = ''id'', cs_type = ''INT64''\<rparr>,
      \<lparr>cs_table_name = ''Users'', cs_column_name = ''name'', cs_type = ''BYTES''\<rparr>]"

definition users_index_columns :: "index_column_schema list" where
  "users_index_columns =
     [\<lparr>ics_table_catalog = '''', ics_table_schema = '''',
       ics_table_name = ''Users'', ics_index_name = ''PRIMARY_KEY'', ics_column_name = ''id'',
       ics_ordinal_position = Some 1\<rparr>]"

definition users_indexes :: "index_schema list" where
  "users_indexes =
     [\<lparr>ix_table_name = ''Users'', ix_index_name = ''PRIMARY_KEY'',
       ix_index_type = ''PRIMARY_KEY'', ix_is_unique = True, ix_index_state = ''''\<rparr>]"

definition users_catalog :: "(nat, string) env" where
  "users_catalog = fixed_catalog users_columns users_index_columns users_indexes"

definition accepted_change :: "update_class \<Rightarrow> string \<Rightarrow> string schema_change" where
  "accepted_change c t =
     \<lparr>sc_class = c, sc_table = t, sc_validate = (\<lambda>_. Inr ()), sc_ddl = (\<lambda>_. Inr ''DDL'')\<rparr>"

definition rejected_change :: "update_class \<Rightarrow> string \<Rightarrow> string schema_change" where
  "rejected_change c t =
     \<lparr>sc_class = c, sc_table = t,
      sc_validate = (\<lambda>_. Inl (Raised ''InvalidSchemaChangeError'')),
      sc_ddl = (\<lambda>_. Inr ''DDL'')\<rparr>"

definition by_name_relation :: "index_column_schema list" where
  "by_name_relation =
     [\<lparr>ics_table_catalog = '''', ics_table_schema = '''',
       ics_table_name = ''Users'', ics_index_name = ''ByName'', ics_column_name = ''email'',
       ics_ordinal_position = Some 1\<rparr>,
      \<lparr>ics_table_catalog = '''', ics_table_schema = '''',
       ics_table_name = ''Users'', ics_index_name = ''ByName'', ics_column_name = ''id'',
       ics_ordinal_position = None\<rparr>,
      \<lparr>ics_table_catalog = '''', ics_table_schema = ''INFORMATION_SCHEMA'',
       ics_table_name = ''Users'', ics_index_name = ''ByEmail'', ics_column_name = ''name'',
       ics_ordinal_position = Some 0\<rparr>,
      \<lparr>ics_table_catalog = '''', ics_table_schema = '''',
       ics_table_name = ''Users'', ics_index_name = ''ByEmail'', ics_column_name = ''email'',
       ics_ordinal_position = None\<rparr>,
      \<lparr>ics_table_catalog = '''', ics_table_schema = '''',
       ics_table_name = ''Users'', ics_index_name = ''ByName'', ics_column_name = ''name'',
       ics_ordinal_position = Some 0\<rparr>]"

definition by_name_fetched :: "index_column_schema list" where
  "by_name_fetched =
     [\<lparr>ics_table_catalog = '''', ics_table_schema = '''',
       ics_table_name = ''Users'', ics_index_name = ''ByName'', ics_column_name = ''name'',
       ics_ordinal_position = Some 0\<rparr>,
      \<lparr>ics_table_catalog = '''', ics_table_schema = '''',
       ics_table_name = ''Users'', ics_index_name = ''ByName'', ics_column_name = ''email'',
       ics_ordinal_position = Some 1\<rparr>]"

definition by_name_indexes :: "index_schema list" where
  "by_name_indexes =
     [\<lparr>ix_table_name = ''Users'', ix_index_name = ''ByName'', ix_index_type = ''INDEX'',
       ix_is_unique = False, ix_index_state = ''READ_WRITE''\<rparr>]"

definition by_name_catalog :: "(nat, string) env" where
  "by_name_catalog = fixed_catalog users_columns by_name_fetched by_name_indexes"

definition no_index_catalog :: "(nat, string) env" where
  "no_index_catalog = fixed_catalog users_columns [] []"

definition two_indexes :: "index_schema list" where
  "two_indexes =
     [\<lparr>ix_table_name = ''Users'', ix_index_name = ''ByName'', ix_index_type = ''INDEX'',
       ix_is_unique = False, ix_index_state = ''READ_WRITE''\<rparr>,
      \<lparr>ix_table_name = ''Users'', ix_index_name = ''ByEmail'', ix_index_type = ''INDEX'',
       ix_is_unique = True, ix_index_state = ''WRITE_ONLY''\<rparr>]"

definition two_indexes_catalog :: "(nat, string) env" where
  "two_indexes_catalog = fixed_catalog users_columns by_name_fetched two_indexes"

text \<open>
  A catalog that answers only under the transaction handle \<open>Some h\<close>: a fetch under any
  other handle, \<open>None\<close> included, raises.
\<close>

definition snapshot_catalog ::
  "nat \<Rightarrow> 'ty column_schema list \<Rightarrow> index_column_schema list \<Rightarrow> index_schema list \<Rightarrow>
   (nat, 'ty) env"
where
  "snapshot_catalog h cs ics ixs =
     \<lparr>ColumnSchema_where =
        (\<lambda>transaction conditions.
           if transaction = Some h then Inr cs else Inl (Raised ''CatalogReadError'')),
      IndexColumnSchema_where =
        (\<lambda>transaction conditions.
           if transaction = Some h then Inr ics else Inl (Raised ''CatalogReadError'')),
      IndexSchema_where =
        (\<lambda>transaction conditions.
           if transaction = Some h then Inr ixs else Inl (Raised ''CatalogReadError'')),
      update_schema = (\<lambda>text. Inr ())\<rparr>"

section \<open>Dictionaries\<close>

lemma map_of_setitem: "map_of (setitem d k v) = (map_of d)(k \<mapsto> v)"
  by (simp add: setitem_def update_conv')

lemma keys_setitem: "keys (setitem d k v) = (if k \<in> set (keys d) then keys d else keys d @ [k])"
  by (simp add: setitem_def keys_def update_keys)

lemma find_app:
  "find P (xs @ ys) = (case find P xs of None \<Rightarrow> find P ys | Some x \<Rightarrow> Some x)"
  by (induction xs) auto

lemma nested_store:
  "dd_getitem [] d a = (inner, d1) \<Longrightarrow>
   nested_lookup (setitem d1 a (setitem inner b v)) a' b' =
     (if a' = a \<and> b' = b then Some v else nested_lookup d a' b')"
  by (auto simp: dd_getitem_def nested_lookup_def map_of_setitem split: option.splits)

lemma nested_store_keys:
  "dd_getitem [] d a = (inner, d1) \<Longrightarrow>
   set (keys (setitem d1 a x)) = insert a (set (keys d))"
  by (auto simp: dd_getitem_def keys_setitem split: option.splits if_splits)

lemma tables_loop_lookup:
  "nested_lookup (tables_loop tables schemas) t c =
     (case find (\<lambda>r. cs_table_name r = t \<and> cs_column_name r = c) (rev schemas) of
        None \<Rightarrow> nested_lookup tables t c
      | Some r \<Rightarrow> Some (cs_type r))"
proof (induction schemas arbitrary: tables)
  case Nil
  show ?case by simp
next
  case (Cons r rs)
  obtain inner tables1 where g: "dd_getitem [] tables (cs_table_name r) = (inner, tables1)"
    by (cases "dd_getitem [] tables (cs_table_name r)")
  show ?case
    by (simp add: g Cons.IH nested_store [OF g] find_app split: option.splits)
qed

lemma tables_loop_keys:
  "set (keys (tables_loop tables schemas)) = set (keys tables) \<union> cs_table_name ` set schemas"
proof (induction schemas arbitrary: tables)
  case Nil
  show ?case by simp
next
  case (Cons r rs)
  obtain inner tables1 where g: "dd_getitem [] tables (cs_table_name r) = (inner, tables1)"
    by (cases "dd_getitem [] tables (cs_table_name r)")
  show ?case
    by (simp add: g Cons.IH nested_store_keys [OF g])
qed

lemma distinct_setitem: "distinct (keys d) \<Longrightarrow> distinct (keys (setitem d k v))"
  by (simp add: setitem_def keys_def distinct_update)

lemma dd_getitem_distinct:
  "dd_getitem dflt d k = (v, d1) \<Longrightarrow> distinct (keys d) \<Longrightarrow> distinct (keys d1)"
  by (auto simp: dd_getitem_def distinct_setitem split: option.splits)

lemma tables_loop_distinct:
  "distinct (keys tables) \<Longrightarrow> distinct (keys (tables_loop tables schemas))"
proof (induction schemas arbitrary: tables)
  case Nil
  then show ?case by simp
next
  case (Cons r rs)
  obtain inner tables1 where g: "dd_getitem [] tables (cs_table_name r) = (inner, tables1)"
    by (cases "dd_getitem [] tables (cs_table_name r)")
  show ?case
    using Cons.prems by (simp add: g Cons.IH dd_getitem_distinct [OF g] distinct_setitem)
qed

lemma dd_getitem_lookup:
  "dd_getitem [] d k = (v, d1) \<Longrightarrow> v = dd_lookup d k \<and> dd_lookup d1 k' = dd_lookup d k'"
  by (auto simp: dd_getitem_def dd_lookup_def map_of_setitem split: option.splits if_splits)

lemma dd_lookup_setitem:
  "dd_lookup (setitem d k v) k' = (if k' = k then v else dd_lookup d k')"
  by (simp add: dd_lookup_def map_of_setitem)

lemma index_columns_loop_lookup:
  "dd_lookup (index_columns_loop index_columns schemas) k =
     dd_lookup index_columns k @
     map ics_column_name (filter (\<lambda>r. (ics_table_name r, ics_index_name r) = k) schemas)"
proof (induction schemas arbitrary: index_columns)
  case Nil
  show ?case by simp
next
  case (Cons r rs)
  obtain cols ic1 where
    g: "dd_getitem [] index_columns (ics_table_name r, ics_index_name r) = (cols, ic1)"
    by (cases "dd_getitem [] index_columns (ics_table_name r, ics_index_name r)")
  have c: "cols = dd_lookup index_columns (ics_table_name r, ics_index_name r)"
    and l: "dd_lookup ic1 k = dd_lookup index_columns k"
    using dd_getitem_lookup [OF g] by blast+
  show ?case
    by (simp add: g Cons.IH dd_lookup_setitem Let_def c l)
qed

lemma indexes_loop_lookup:
  "nested_lookup (indexes_loop index_columns indexes schemas) t i =
     (case find (\<lambda>r. ix_table_name r = t \<and> ix_index_name r = i) (rev schemas) of
        None \<Rightarrow> nested_lookup indexes t i
      | Some r \<Rightarrow>
          Some \<lparr>columns = dd_lookup index_columns (t, i), type = ix_index_type r,
                unique = ix_is_unique r, state = ix_index_state r\<rparr>)"
proof (induction schemas arbitrary: index_columns indexes)
  case Nil
  show ?case by simp
next
  case (Cons r rs)
  obtain cols ic1 where
    g: "dd_getitem [] index_columns (ix_table_name r, ix_index_name r) = (cols, ic1)"
    by (cases "dd_getitem [] index_columns (ix_table_name r, ix_index_name r)")
  obtain inner indexes1 where h: "dd_getitem [] indexes (ix_table_name r) = (inner, indexes1)"
    by (cases "dd_getitem [] indexes (ix_table_name r)")
  have c: "cols = dd_lookup index_columns (ix_table_name r, ix_index_name r)"
    and k: "dd_lookup ic1 (t, i) = dd_lookup index_columns (t, i)"
    using dd_getitem_lookup [OF g] by blast+
  show ?case
    by (simp add: g h Cons.IH nested_store [OF h] find_app c k Let_def split: option.splits)
qed

lemma sorted_group:
  "sorted (map f xs) \<Longrightarrow> sorted (map f (filter P xs))"
  by (induction xs) auto

lemma filter_key_single:
  "distinct (map f xs) \<Longrightarrow> k \<in> set xs \<Longrightarrow> filter (\<lambda>x. f k = f x) xs = [k]"
proof (induction xs)
  case Nil
  then show ?case by simp
next
  case (Cons x xs)
  show ?case
  proof (cases "k = x")
    case True
    have "filter (\<lambda>y. f x = f y) xs = []"
      using Cons.prems(1) by (auto simp: filter_empty_conv)
    then show ?thesis using True by simp
  next
    case False
    then have "k \<in> set xs" using Cons.prems(2) by simp
    moreover have "f x \<notin> f ` set xs" using Cons.prems(1) by simp
    then have "f k \<noteq> f x" using \<open>k \<in> set xs\<close> by (metis imageI)
    ultimately show ?thesis using Cons by simp
  qed
qed

lemma sorted_distinct_keys_unique:
  fixes f :: "'a \<Rightarrow> 'b::linorder"
  assumes "mset rs = mset xs" and "sorted (map f rs)" and "distinct (map f xs)"
  shows "rs = sort_key f xs"
proof -
  have "mset (map f rs) = mset (map f xs)" using assms(1) by (metis mset_map)
  then have d: "distinct (map f rs)" using assms(3) by (metis mset_eq_imp_distinct_iff)
  have s: "set rs = set xs" using assms(1) by (rule mset_eq_setD)
  have "sort_key f xs = rs"
  proof (rule properties_for_sort_key [OF assms(1) _ assms(2)])
    fix k assume "k \<in> set rs"
    then show "filter (\<lambda>x. f k = f x) rs = filter (\<lambda>x. f k = f x) xs"
      using filter_key_single [OF d] filter_key_single [OF assms(3)] s by metis
  qed
  then show ?thesis by simp
qed

lemma requested_filter:
  "list_all (\<lambda>c. satisfies ics_column c r) index_column_conditions \<longleftrightarrow>
     ics_table_catalog r = '''' \<and> ics_table_schema r = '''' \<and> ics_ordinal_position r \<noteq> None"
  by (simp add: index_column_conditions_def namespace_conditions_def ics_column_def
      split: option.splits)

lemma precedes_ordinal_position:
  "precedes ics_column [(''ordinal_position'', ASC)] =
     (\<lambda>a b. ics_ordinal_position a \<le> ics_ordinal_position b)"
proof (intro ext)
  fix a b
  show "precedes ics_column [(''ordinal_position'', ASC)] a b \<longleftrightarrow>
          ics_ordinal_position a \<le> ics_ordinal_position b"
    by (cases "ics_ordinal_position a"; cases "ics_ordinal_position b")
       (simp_all add: ics_column_def)
qed

lemma requested_order:
  "honours_order ics_column index_column_conditions fetched \<longleftrightarrow>
     sorted (map ics_ordinal_position fetched)"
  by (simp add: honours_order_def index_column_conditions_def namespace_conditions_def
      precedes_ordinal_position sorted_map)

lemma group_of_fetched:
  assumes "honours_filter ics_column relation index_column_conditions fetched"
  shows "mset (filter (\<lambda>r. (ics_table_name r, ics_index_name r) = (t, i)) fetched) =
           mset (index_rows relation t i)"
proof -
  have "mset (filter (\<lambda>r. (ics_table_name r, ics_index_name r) = (t, i)) fetched) =
        filter_mset (\<lambda>r. (ics_table_name r, ics_index_name r) = (t, i))
          (mset (filter (\<lambda>r. ics_table_catalog r = '''' \<and> ics_table_schema r = '''' \<and>
                               ics_ordinal_position r \<noteq> None) relation))"
    using assms by (simp add: honours_filter_def requested_filter)
  also have "\<dots> = mset (index_rows relation t i)"
    by (auto simp: index_rows_def filter_filter_mset intro!: filter_mset_cong)
  finally show ?thesis .
qed

lemma group_of_fetched_sorted:
  assumes "honours_order ics_column index_column_conditions fetched"
  shows "sorted (map ics_ordinal_position
           (filter (\<lambda>r. (ics_table_name r, ics_index_name r) = (t, i)) fetched))"
  using assms by (simp add: requested_order sorted_group)

lemma find_unique:
  "distinct (map f xs) \<Longrightarrow> x \<in> set xs \<Longrightarrow> find (\<lambda>y. f y = f x) xs = Some x"
  by (induction xs) force+

lemma and_then_Inl: "and_then (Inl e, tr) f = (Inl e, tr)"
  by (simp add: and_then_def)

lemma and_then_Inr: "and_then (Inr x, tr) f = (fst (f x), tr @ snd (f x))"
  by (simp add: and_then_def split: prod.splits)

lemma dd_getitem_nested_Some:
  "nested_lookup d a b = Some e \<Longrightarrow> dd_getitem [] d a = (inner, d1) \<Longrightarrow>
   d1 = d \<and> map_of inner b = Some e"
  by (auto simp: nested_lookup_def dd_getitem_def split: option.splits)

lemma dd_getitem_nested_None:
  "nested_lookup d a b = None \<Longrightarrow> dd_getitem [] d a = (inner, d1) \<Longrightarrow> map_of inner b = None"
  by (auto simp: nested_lookup_def dd_getitem_def split: option.splits)

lemma models_loop_fail:
  "(t, s) \<in> set items \<Longrightarrow> nested_lookup indexes t ''PRIMARY_KEY'' = None \<Longrightarrow>
   models_loop indexes results items = Inl (KeyError ''PRIMARY_KEY'')"
proof (induction items arbitrary: results)
  case Nil
  then show ?case by simp
next
  case (Cons item items)
  obtain t0 s0 where item: "item = (t0, s0)" by (cases item)
  obtain inner indexes1 where g: "dd_getitem [] indexes t0 = (inner, indexes1)"
    by (cases "dd_getitem [] indexes t0")
  show ?case
  proof (cases "nested_lookup indexes t0 ''PRIMARY_KEY''")
    case None
    then have "map_of inner ''PRIMARY_KEY'' = None"
      using g by (rule dd_getitem_nested_None)
    then show ?thesis by (simp add: item g getitem_def)
  next
    case (Some e)
    then have same: "indexes1 = indexes" and pk: "map_of inner ''PRIMARY_KEY'' = Some e"
      using dd_getitem_nested_Some [OF Some g] by simp_all
    have "(t, s) \<in> set items"
      using Cons.prems Some item by auto
    then show ?thesis
      using Cons.IH Cons.prems(2) by (simp add: item g getitem_def pk same)
  qed
qed

lemma models_loop_ok:
  assumes "\<forall>(t, s) \<in> set items. nested_lookup indexes t ''PRIMARY_KEY'' \<noteq> None"
    and "distinct (map fst items)"
    and "set (map fst items) \<inter> set (keys results) = {}"
  shows "\<exists>res. models_loop indexes results items = Inr res \<and>
           keys res = keys results @ map fst items \<and>
           (\<forall>t. t \<notin> set (map fst items) \<longrightarrow> map_of res t = map_of results t) \<and>
           (\<forall>(t, s) \<in> set items. \<exists>e. nested_lookup indexes t ''PRIMARY_KEY'' = Some e \<and>
              map_of res t = Some \<lparr>name = ''Model_'' @ t, primary_index_keys = columns e,
                                    schema = s, table = t\<rparr>)"
  using assms
proof (induction items arbitrary: results)
  case Nil
  then show ?case by simp
next
  case (Cons item items)
  obtain t0 s0 where item: "item = (t0, s0)" by (cases item)
  obtain inner indexes1 where g: "dd_getitem [] indexes t0 = (inner, indexes1)"
    by (cases "dd_getitem [] indexes t0")
  obtain e0 where e0: "nested_lookup indexes t0 ''PRIMARY_KEY'' = Some e0"
    using Cons.prems(1) item by auto
  have same: "indexes1 = indexes" and pk: "map_of inner ''PRIMARY_KEY'' = Some e0"
    using dd_getitem_nested_Some [OF e0 g] by simp_all
  let ?m = "\<lparr>name = ''Model_'' @ t0, primary_index_keys = columns e0, schema = s0, table = t0\<rparr>"
  let ?results = "setitem results t0 ?m"
  have fresh: "t0 \<notin> set (keys results)" using Cons.prems(3) item by auto
  have k: "keys ?results = keys results @ [t0]" using fresh by (simp add: keys_setitem)
  have step: "models_loop indexes results (item # items) = models_loop indexes ?results items"
    by (simp add: item g getitem_def pk same)
  have p1: "\<forall>(t, s) \<in> set items. nested_lookup indexes t ''PRIMARY_KEY'' \<noteq> None"
    using Cons.prems(1) by simp
  have p2: "distinct (map fst items)" using Cons.prems(2) by simp
  have p3: "set (map fst items) \<inter> set (keys ?results) = {}"
    unfolding k using Cons.prems(2,3) item by auto
  from Cons.IH [OF p1 p2 p3] obtain res where
    r: "models_loop indexes ?results items = Inr res"
    and rk: "keys res = keys ?results @ map fst items"
    and rother: "\<forall>t. t \<notin> set (map fst items) \<longrightarrow> map_of res t = map_of ?results t"
    and ritems: "\<forall>(t, s) \<in> set items. \<exists>e. nested_lookup indexes t ''PRIMARY_KEY'' = Some e \<and>
              map_of res t = Some \<lparr>name = ''Model_'' @ t, primary_index_keys = columns e,
                                    schema = s, table = t\<rparr>"
    by blast
  have t0_out: "t0 \<notin> set (map fst items)" using Cons.prems(2) item by simp
  have head: "map_of res t0 = Some ?m"
    using rother t0_out by (simp add: map_of_setitem)
  have other: "\<forall>t. t \<notin> set (map fst (item # items)) \<longrightarrow> map_of res t = map_of results t"
    using rother by (simp add: item map_of_setitem)
  have all: "\<forall>(t, s) \<in> set (item # items). \<exists>e. nested_lookup indexes t ''PRIMARY_KEY'' = Some e \<and>
              map_of res t = Some \<lparr>name = ''Model_'' @ t, primary_index_keys = columns e,
                                    schema = s, table = t\<rparr>"
    using ritems head e0 by (simp add: item)
  show ?case
    using step r rk [unfolded k] other all by (simp add: item)
qed

lemma tables_of_result:
  "tables_of env txn = (Inr tables, tr) \<Longrightarrow>
   \<exists>schemas. ColumnSchema_where env txn namespace_conditions = Inr schemas \<and>
     tables = tables_loop [] schemas \<and> tr = [Where ColumnSchema txn namespace_conditions]"
  by (cases "ColumnSchema_where env txn namespace_conditions")
     (simp_all add: tables_of_def fetch_def call_def pure_def and_then_Inl and_then_Inr)

lemma tables_of_distinct:
  "tables_of env txn = (Inr tables, tr) \<Longrightarrow> distinct (keys tables)"
  using tables_of_result [of env txn tables tr] tables_loop_distinct [of "[]"]
  by (auto simp: keys_def)

lemma models_unfold:
  "tables_of env txn = (Inr tables, tr1) \<Longrightarrow> indexes_of env txn = (Inr indexes, tr2) \<Longrightarrow>
   models env txn = (models_loop indexes [] tables, tr1 @ tr2)"
  by (simp add: models_def and_then_Inr pure_def)

section \<open>Traces of the catalog reads\<close>

lemma nested_lookup_empty: "nested_lookup [] a b = None"
  by (simp add: nested_lookup_def)

lemma keys_empty: "keys [] = []"
  by (simp add: keys_def)

lemma models_trace:
  "snd (models env txn) =
     (case ColumnSchema_where env txn namespace_conditions of
        Inl _ \<Rightarrow> [Where ColumnSchema txn namespace_conditions]
      | Inr _ \<Rightarrow>
          (case IndexColumnSchema_where env txn index_column_conditions of
             Inl _ \<Rightarrow>
               [Where ColumnSchema txn namespace_conditions,
                Where IndexColumnSchema txn index_column_conditions]
           | Inr _ \<Rightarrow>
               [Where ColumnSchema txn namespace_conditions,
                Where IndexColumnSchema txn index_column_conditions,
                Where IndexSchema txn namespace_conditions]))"
  by (simp add: models_def tables_of_def indexes_of_def fetch_def call_def pure_def and_then_def
      split: sum.splits prod.splits)

lemma models_no_submission: "submissions (snd (models env txn)) = []"
  by (simp add: models_trace submissions_def split: sum.splits)

lemma models_no_ddl: "Ddl \<notin> set (snd (models env txn))"
  by (simp add: models_trace split: sum.splits)

lemma users_models:
  "models users_catalog None =
     (Inr [(''Users'', \<lparr>name = ''Model_Users'', primary_index_keys = [''id''],
                        schema = [(''id'', ''INT64''), (''name'', ''STRING'')],
                        table = ''Users''\<rparr>)],
      [Where ColumnSchema None namespace_conditions,
       Where IndexColumnSchema None index_column_conditions,
       Where IndexSchema None namespace_conditions])"
  by (simp add: models_def tables_of_def indexes_of_def fetch_def call_def pure_def and_then_def
      users_catalog_def fixed_catalog_def users_columns_def users_index_columns_def
      users_indexes_def dd_getitem_def setitem_def getitem_def)

lemma map_of_absent: "k \<notin> set (keys d) \<Longrightarrow> map_of d k = None"
  by (simp add: keys_def map_of_eq_None_iff)

lemma users_tables:
  "tables_of users_catalog None =
     (Inr [(''Users'', [(''id'', ''INT64''), (''name'', ''STRING'')])],
      [Where ColumnSchema None namespace_conditions])"
  by (simp add: tables_of_def fetch_def call_def pure_def and_then_def
      users_catalog_def fixed_catalog_def users_columns_def dd_getitem_def setitem_def)

lemma users_indexes_of:
  "indexes_of users_catalog None =
     (Inr [(''Users'', [(''PRIMARY_KEY'', \<lparr>columns = [''id''], type = ''PRIMARY_KEY'',
                                            unique = True, state = ''''\<rparr>)])],
      [Where IndexColumnSchema None index_column_conditions,
       Where IndexSchema None namespace_conditions])"
  by (simp add: indexes_of_def fetch_def call_def pure_def and_then_def
      users_catalog_def fixed_catalog_def users_index_columns_def users_indexes_def
      dd_getitem_def setitem_def)

lemma models_loop_from_empty:
  assumes "\<forall>(t, s) \<in> set items. nested_lookup indexes t ''PRIMARY_KEY'' \<noteq> None"
    and "distinct (map fst items)"
  shows "\<exists>res. models_loop indexes [] items = Inr res \<and> keys res = map fst items \<and>
           (\<forall>(t, s) \<in> set items. \<exists>e. nested_lookup indexes t ''PRIMARY_KEY'' = Some e \<and>
              map_of res t = Some \<lparr>name = ''Model_'' @ t, primary_index_keys = columns e,
                                    schema = s, table = t\<rparr>)"
proof -
  have "set (map fst items) \<inter> set (keys ([] :: (string, 'a model) dict)) = {}"
    by (simp add: keys_empty)
  from models_loop_ok [OF assms this] show ?thesis
    by (simp only: keys_empty append_Nil) blast
qed

lemma getitem_absent: "k \<notin> set (keys d) \<Longrightarrow> getitem d k = Inl (KeyError k)"
  by (simp add: getitem_def map_of_absent)

lemma indexes_of_result:
  assumes "IndexColumnSchema_where env txn index_column_conditions = Inr fetched"
    and "IndexSchema_where env txn namespace_conditions = Inr index_schemas"
  shows "fst (indexes_of env txn) =
           Inr (indexes_loop (index_columns_loop [] fetched) [] index_schemas)"
  using assms by (simp add: indexes_of_def fetch_def call_def pure_def and_then_Inr)

lemma dd_lookup_empty: "dd_lookup [] k = []"
  by (simp add: dd_lookup_def)

lemma fetched_columns:
  "dd_lookup (index_columns_loop [] fetched) (t, i) =
     map ics_column_name
       (filter (\<lambda>r. (ics_table_name r, ics_index_name r) = (t, i)) fetched)"
  by (simp add: index_columns_loop_lookup dd_lookup_empty)

lemma indexes_loop_columns:
  assumes "nested_lookup (indexes_loop index_columns [] index_schemas) t i = Some e"
  shows "columns e = dd_lookup index_columns (t, i)"
  using assms
  by (auto simp: indexes_loop_lookup nested_lookup_empty split: option.splits)

lemma indexes_loop_present:
  assumes "\<exists>r \<in> set index_schemas. ix_table_name r = t \<and> ix_index_name r = i"
  shows "\<exists>e. nested_lookup (indexes_loop index_columns [] index_schemas) t i = Some e"
proof -
  have "find (\<lambda>r. ix_table_name r = t \<and> ix_index_name r = i) (rev index_schemas) \<noteq> None"
    using assms by (auto simp: find_None_iff)
  then show ?thesis
    by (auto simp: indexes_loop_lookup split: option.splits)
qed

lemma by_name_honours_filter:
  "honours_filter ics_column by_name_relation index_column_conditions by_name_fetched"
  by (simp add: honours_filter_def requested_filter by_name_relation_def by_name_fetched_def)

lemma by_name_honours_order:
  "honours_order ics_column index_column_conditions by_name_fetched"
  by (simp add: requested_order by_name_fetched_def)

section \<open>Properties of the module\<close>

text \<open>
  C8. When the filtered fetch of column rows returns \<open>schemas\<close>, the columns read
  returns a dictionary in which \<open>tables[t][c]\<close> is the type of the last row with table
  \<open>t\<close> and column \<open>c\<close>, and is missing when there is no such row: every row's column
  is under its own table, under no table that has no row for it, and a later row
  overwrites an earlier one with the same table and column. The tables are exactly
  those of the rows.
\<close>

theorem tables_of_groups_by_table:
  assumes "ColumnSchema_where env txn namespace_conditions = Inr schemas"
  shows "\<exists>tables. fst (tables_of env txn) = Inr tables \<and>
           (\<forall>t c. nested_lookup tables t c =
              map_option cs_type
                (find (\<lambda>r. cs_table_name r = t \<and> cs_column_name r = c) (rev schemas))) \<and>
           set (keys tables) = cs_table_name ` set schemas"
proof -
  have "fst (tables_of env txn) = Inr (tables_loop [] schemas)"
    using assms by (simp add: tables_of_def fetch_def call_def pure_def and_then_Inr)
  moreover have "nested_lookup (tables_loop [] schemas) t c =
      map_option cs_type
        (find (\<lambda>r. cs_table_name r = t \<and> cs_column_name r = c) (rev schemas))" for t c
    by (simp add: tables_loop_lookup nested_lookup_empty split: option.splits)
  moreover have "set (keys (tables_loop [] schemas)) = cs_table_name ` set schemas"
    by (simp add: tables_loop_keys keys_empty)
  ultimately show ?thesis by blast
qed

theorem tables_of_groups_by_table_witness:
  "ColumnSchema_where (fixed_catalog overwriting_columns [] []) None namespace_conditions =
     Inr overwriting_columns \<and>
   (\<exists>tables.
      fst (tables_of (fixed_catalog overwriting_columns [] []) None) = Inr tables \<and>
      nested_lookup tables ''Users'' ''name'' = Some ''BYTES'' \<and>
      nested_lookup tables ''Orders'' ''id'' = Some ''INT64'' \<and>
      nested_lookup tables ''Orders'' ''name'' = None \<and>
      nested_lookup tables ''Users'' ''id'' = None \<and>
      set (keys tables) = {''Users'', ''Orders''})"
proof -
  let ?env = "fixed_catalog overwriting_columns [] [] :: (nat, string) env"
  have h: "ColumnSchema_where ?env None namespace_conditions = Inr overwriting_columns"
    by (simp add: fixed_catalog_def)
  from tables_of_groups_by_table [OF h] obtain tables where
    t: "fst (tables_of ?env None) = Inr tables"
    and l: "\<And>t c. nested_lookup tables t c =
              map_option cs_type
                (find (\<lambda>r. cs_table_name r = t \<and> cs_column_name r = c)
                   (rev overwriting_columns))"
    and k: "set (keys tables) = cs_table_name ` set overwriting_columns"
    by blast
  show ?thesis
    using h t k by (auto simp: l overwriting_columns_def)
qed

text \<open>
  C6. A request whose class is not the one the operation asserts makes the operation
  raise \<open>AssertionError\<close> (the failure of \<open>assert isinstance(...)\<close>) with an empty trace:
  no catalog read and no submission has happened.
\<close>

theorem type_mismatch_fails_first:
  "(sc_class sc \<noteq> ColumnUpdate \<longrightarrow> column_update env sc = (Inl AssertionError, [])) \<and>
   (sc_class sc \<noteq> CreateTableUpdate \<longrightarrow> create_table env sc = (Inl AssertionError, [])) \<and>
   (sc_class sc \<noteq> IndexUpdate \<longrightarrow> index_update env sc = (Inl AssertionError, []))"
  by (simp add: column_update_def create_table_def index_update_def isinstance_def pure_def)

theorem type_mismatch_fails_first_witness:
  "sc_class (accepted_change IndexUpdate ''Users'') \<noteq> ColumnUpdate \<and>
   sc_class (accepted_change IndexUpdate ''Users'') \<noteq> CreateTableUpdate \<and>
   sc_class (accepted_change ColumnUpdate ''Users'') \<noteq> IndexUpdate \<and>
   column_update users_catalog (accepted_change IndexUpdate ''Users'') = (Inl AssertionError, []) \<and>
   create_table users_catalog (accepted_change IndexUpdate ''Users'') = (Inl AssertionError, []) \<and>
   index_update users_catalog (accepted_change ColumnUpdate ''Users'') = (Inl AssertionError, [])"
  using type_mismatch_fails_first [of "accepted_change IndexUpdate ''Users''" users_catalog]
    type_mismatch_fails_first [of "accepted_change ColumnUpdate ''Users''" users_catalog]
  by (simp add: accepted_change_def)

text \<open>
  C10. For every transaction handle, \<open>None\<close> included: the columns read returns what the
  fetch of column rows yields under that handle, and records that fetch; the indexes
  read returns what the fetches of index-column rows and of index rows yield under that
  handle, and records those fetches; and \<open>models\<close> under a handle is the columns read under
  that handle followed, when it returns, by the indexes read under that same handle. So
  two catalogs whose three fetch primitives agree under a handle give the same outcome
  of \<open>models\<close> under it, however they differ under other handles.
\<close>

theorem models_forwards_transaction:
  "tables_of env txn =
     (case ColumnSchema_where env txn namespace_conditions of
        Inl e \<Rightarrow> Inl e
      | Inr schemas \<Rightarrow> Inr (tables_loop [] schemas),
      [Where ColumnSchema txn namespace_conditions]) \<and>
   indexes_of env txn =
     (case IndexColumnSchema_where env txn index_column_conditions of
        Inl e \<Rightarrow> (Inl e, [Where IndexColumnSchema txn index_column_conditions])
      | Inr index_column_schemas \<Rightarrow>
          (case IndexSchema_where env txn namespace_conditions of
             Inl e \<Rightarrow> Inl e
           | Inr index_schemas \<Rightarrow>
               Inr (indexes_loop (index_columns_loop [] index_column_schemas) []
                      index_schemas),
           [Where IndexColumnSchema txn index_column_conditions,
            Where IndexSchema txn namespace_conditions])) \<and>
   models env txn =
     (case tables_of env txn of
        (Inl e, tr) \<Rightarrow> (Inl e, tr)
      | (Inr tables, tr) \<Rightarrow>
          (case indexes_of env txn of
             (Inl e, tr') \<Rightarrow> (Inl e, tr @ tr')
           | (Inr indexes, tr') \<Rightarrow> (models_loop indexes [] tables, tr @ tr'))) \<and>
   (ColumnSchema_where env' txn = ColumnSchema_where env txn \<and>
    IndexColumnSchema_where env' txn = IndexColumnSchema_where env txn \<and>
    IndexSchema_where env' txn = IndexSchema_where env txn \<longrightarrow>
      models env' txn = models env txn)"
  by (simp add: models_def tables_of_def indexes_of_def fetch_def call_def pure_def and_then_def
      split: sum.splits prod.splits)

theorem models_forwards_transaction_witness:
  "ColumnSchema_where (snapshot_catalog 7 users_columns users_index_columns users_indexes)
     (Some 7) = ColumnSchema_where users_catalog (Some 7) \<and>
   IndexColumnSchema_where (snapshot_catalog 7 users_columns users_index_columns users_indexes)
     (Some 7) = IndexColumnSchema_where users_catalog (Some 7) \<and>
   IndexSchema_where (snapshot_catalog 7 users_columns users_index_columns users_indexes)
     (Some 7) = IndexSchema_where users_catalog (Some 7) \<and>
   models (snapshot_catalog 7 users_columns users_index_columns users_indexes) (Some 7) =
     models users_catalog (Some 7) \<and>
   fst (models users_catalog (Some 7)) =
     Inr [(''Users'', \<lparr>name = ''Model_Users'', primary_index_keys = [''id''],
                        schema = [(''id'', ''INT64''), (''name'', ''STRING'')],
                        table = ''Users''\<rparr>)] \<and>
   models (snapshot_catalog 7 users_columns users_index_columns users_indexes) None =
     (Inl (Raised ''CatalogReadError''), [Where ColumnSchema None namespace_conditions])"
proof -
  let ?snapshot = "snapshot_catalog 7 users_columns users_index_columns users_indexes
                     :: (nat, string) env"
  have c: "ColumnSchema_where ?snapshot (Some 7) = ColumnSchema_where users_catalog (Some 7)"
    and i: "IndexColumnSchema_where ?snapshot (Some 7) =
              IndexColumnSchema_where users_catalog (Some 7)"
    and x: "IndexSchema_where ?snapshot (Some 7) = IndexSchema_where users_catalog (Some 7)"
    by (simp_all add: snapshot_catalog_def users_catalog_def fixed_catalog_def)
  have m: "fst (models users_catalog (Some 7)) =
     Inr [(''Users'', \<lparr>name = ''Model_Users'', primary_index_keys = [''id''],
                        schema = [(''id'', ''INT64''), (''name'', ''STRING'')],
                        table = ''Users''\<rparr>)]"
    by (simp add: models_def tables_of_def indexes_of_def fetch_def call_def pure_def
        and_then_def users_catalog_def fixed_catalog_def users_columns_def
        users_index_columns_def users_indexes_def dd_getitem_def setitem_def getitem_def)
  have n: "models ?snapshot None =
     (Inl (Raised ''CatalogReadError''), [Where ColumnSchema None namespace_conditions])"
    by (simp add: models_def tables_of_def fetch_def call_def and_then_def snapshot_catalog_def)
  show ?thesis
    using models_forwards_transaction [of ?snapshot "Some 7" users_catalog] c i x m n
    by simp
qed

text \<open>
  C2. When the columns read returns \<open>tables\<close>, the indexes read returns \<open>indexes\<close> and
  every table of \<open>tables\<close> has a \<open>PRIMARY_KEY\<close> entry in \<open>indexes\<close>, \<open>models\<close> returns a
  dictionary with exactly the keys of \<open>tables\<close>, each once and in the same order, and
  the class stored under a table \<open>t\<close> answers \<open>primary_index_keys\<close> with the column
  sequence of \<open>indexes[t]['PRIMARY_KEY']\<close>, \<open>schema\<close> with \<open>tables[t]\<close> and \<open>table\<close> with
  \<open>t\<close>.
\<close>

theorem models_descriptors:
  fixes env :: "('txn, 'ty) env"
  assumes T: "tables_of env txn = (Inr tables, tr1)"
    and I: "indexes_of env txn = (Inr indexes, tr2)"
    and PK: "\<forall>t \<in> set (keys tables). nested_lookup indexes t ''PRIMARY_KEY'' \<noteq> None"
  shows "\<exists>all_models. models env txn = (Inr all_models, tr1 @ tr2) \<and>
           keys all_models = keys tables \<and> distinct (keys all_models) \<and>
           (\<forall>t s. map_of tables t = Some s \<longrightarrow>
              (\<exists>m e. map_of all_models t = Some m \<and>
                 nested_lookup indexes t ''PRIMARY_KEY'' = Some e \<and>
                 primary_index_keys m = columns e \<and> schema m = s \<and> table m = t))"
proof -
  have d: "distinct (map fst tables)"
    using tables_of_distinct [OF T] by (simp add: keys_def)
  have p: "\<forall>(t, s) \<in> set tables. nested_lookup indexes t ''PRIMARY_KEY'' \<noteq> None"
    using PK by (force simp: keys_def)
  from models_loop_from_empty [OF p d] obtain res where
    r: "models_loop indexes [] tables = Inr res"
    and k: "keys res = map fst tables"
    and a: "\<forall>(t, s) \<in> set tables. \<exists>e. nested_lookup indexes t ''PRIMARY_KEY'' = Some e \<and>
              map_of res t = Some \<lparr>name = ''Model_'' @ t, primary_index_keys = columns e,
                                    schema = s, table = t\<rparr>"
    by (elim exE conjE)
  have m: "models env txn = (Inr res, tr1 @ tr2)"
    using models_unfold [OF T I] r by simp
  have k': "keys res = keys tables"
    using k by (simp add: keys_def)
  have dk: "distinct (keys res)"
    using d k' by (simp add: keys_def)
  have each: "\<exists>m e. map_of res t = Some m \<and>
                 nested_lookup indexes t ''PRIMARY_KEY'' = Some e \<and>
                 primary_index_keys m = columns e \<and> schema m = s \<and> table m = t"
    if "map_of tables t = Some s" for t s
  proof -
    have "(t, s) \<in> set tables" using that by (rule map_of_SomeD)
    then obtain e where "nested_lookup indexes t ''PRIMARY_KEY'' = Some e"
      and "map_of res t = Some \<lparr>name = ''Model_'' @ t, primary_index_keys = columns e,
                                    schema = s, table = t\<rparr>"
      using a by blast
    then show ?thesis by simp
  qed
  show ?thesis
    using m k' dk each by blast
qed

theorem models_descriptors_witness:
  "tables_of users_catalog None =
     (Inr [(''Users'', [(''id'', ''INT64''), (''name'', ''STRING'')])],
      [Where ColumnSchema None namespace_conditions]) \<and>
   indexes_of users_catalog None =
     (Inr [(''Users'', [(''PRIMARY_KEY'', \<lparr>columns = [''id''], type = ''PRIMARY_KEY'',
                                            unique = True, state = ''''\<rparr>)])],
      [Where IndexColumnSchema None index_column_conditions,
       Where IndexSchema None namespace_conditions]) \<and>
   (\<exists>all_models.
      fst (models users_catalog None) = Inr all_models \<and> keys all_models = [''Users''] \<and>
      map_option primary_index_keys (map_of all_models ''Users'') = Some [''id''] \<and>
      map_option schema (map_of all_models ''Users'') =
        Some [(''id'', ''INT64''), (''name'', ''STRING'')] \<and>
      map_option table (map_of all_models ''Users'') = Some ''Users'')"
proof -
  let ?tables = "[(''Users'', [(''id'', ''INT64''), (''name'', ''STRING'')])]"
  let ?indexes = "[(''Users'', [(''PRIMARY_KEY'', \<lparr>columns = [''id''], type = ''PRIMARY_KEY'',
                                            unique = True, state = ''''\<rparr>)])]"
  have pk: "\<forall>t \<in> set (keys ?tables). nested_lookup ?indexes t ''PRIMARY_KEY'' \<noteq> None"
    by (simp add: keys_def nested_lookup_def)
  from models_descriptors [OF users_tables users_indexes_of pk] obtain all_models where
    m: "models users_catalog None = (Inr all_models, 
          [Where ColumnSchema None namespace_conditions] @
          [Where IndexColumnSchema None index_column_conditions,
           Where IndexSchema None namespace_conditions])"
    and k: "keys all_models = keys ?tables"
    and e: "\<And>t s. map_of ?tables t = Some s \<Longrightarrow>
              (\<exists>m e. map_of all_models t = Some m \<and>
                 nested_lookup ?indexes t ''PRIMARY_KEY'' = Some e \<and>
                 primary_index_keys m = columns e \<and> schema m = s \<and> table m = t)"
    by blast
  have "\<exists>m e. map_of all_models ''Users'' = Some m \<and>
                 nested_lookup ?indexes ''Users'' ''PRIMARY_KEY'' = Some e \<and>
                 primary_index_keys m = columns e \<and>
                 schema m = [(''id'', ''INT64''), (''name'', ''STRING'')] \<and> table m = ''Users''"
    by (rule e) simp
  then have "map_option primary_index_keys (map_of all_models ''Users'') = Some [''id''] \<and>
      map_option schema (map_of all_models ''Users'') =
        Some [(''id'', ''INT64''), (''name'', ''STRING'')] \<and>
      map_option table (map_of all_models ''Users'') = Some ''Users''"
    by (auto simp: nested_lookup_def)
  then show ?thesis
    using users_tables users_indexes_of m k by (simp add: keys_def)
qed

text \<open>
  C3. When some table of the tables map is missing from the index map, or is there
  without a \<open>PRIMARY_KEY\<close> entry, \<open>models\<close> fails: the subscript \<open>['PRIMARY_KEY']\<close> raises
  \<open>KeyError('PRIMARY_KEY')\<close>, the failure the specification names
  MissingPrimaryKeyError. It does so after both catalog reads.
\<close>

theorem models_missing_primary_key:
  assumes T: "tables_of env txn = (Inr tables, tr1)"
    and I: "indexes_of env txn = (Inr indexes, tr2)"
    and t: "t \<in> set (keys tables)"
    and missing: "map_of indexes t = None \<or>
                  (\<exists>d. map_of indexes t = Some d \<and> map_of d ''PRIMARY_KEY'' = None)"
  shows "models env txn = (Inl (KeyError ''PRIMARY_KEY''), tr1 @ tr2)"
proof -
  obtain s where s: "(t, s) \<in> set tables"
    using t by (auto simp: keys_def)
  have n: "nested_lookup indexes t ''PRIMARY_KEY'' = None"
    using missing by (auto simp: nested_lookup_def)
  show ?thesis
    using models_unfold [OF T I] models_loop_fail [OF s n] by simp
qed

theorem models_missing_primary_key_witness:
  "tables_of no_index_catalog None =
     (Inr [(''Users'', [(''id'', ''INT64''), (''name'', ''STRING'')])],
      [Where ColumnSchema None namespace_conditions]) \<and>
   indexes_of no_index_catalog None =
     (Inr [], [Where IndexColumnSchema None index_column_conditions,
               Where IndexSchema None namespace_conditions]) \<and>
   models no_index_catalog None =
     (Inl (KeyError ''PRIMARY_KEY''),
      [Where ColumnSchema None namespace_conditions,
       Where IndexColumnSchema None index_column_conditions,
       Where IndexSchema None namespace_conditions]) \<and>
   tables_of by_name_catalog None =
     (Inr [(''Users'', [(''id'', ''INT64''), (''name'', ''STRING'')])],
      [Where ColumnSchema None namespace_conditions]) \<and>
   indexes_of by_name_catalog None =
     (Inr [(''Users'', [(''ByName'', \<lparr>columns = [''name'', ''email''], type = ''INDEX'',
                                     unique = False, state = ''READ_WRITE''\<rparr>)])],
      [Where IndexColumnSchema None index_column_conditions,
       Where IndexSchema None namespace_conditions]) \<and>
   models by_name_catalog None =
     (Inl (KeyError ''PRIMARY_KEY''),
      [Where ColumnSchema None namespace_conditions,
       Where IndexColumnSchema None index_column_conditions,
       Where IndexSchema None namespace_conditions])"
proof -
  let ?tables = "[(''Users'', [(''id'', ''INT64''), (''name'', ''STRING'')])]"
  let ?by_name = "[(''Users'', [(''ByName'', \<lparr>columns = [''name'', ''email''], type = ''INDEX'',
                                     unique = False, state = ''READ_WRITE''\<rparr>)])]"
  have t1: "tables_of no_index_catalog None =
     (Inr ?tables, [Where ColumnSchema None namespace_conditions])"
    by (simp add: tables_of_def fetch_def call_def pure_def and_then_def no_index_catalog_def
        fixed_catalog_def users_columns_def dd_getitem_def setitem_def)
  have i1: "indexes_of no_index_catalog None =
     (Inr [], [Where IndexColumnSchema None index_column_conditions,
               Where IndexSchema None namespace_conditions])"
    by (simp add: indexes_of_def fetch_def call_def pure_def and_then_def no_index_catalog_def
        fixed_catalog_def)
  have t2: "tables_of by_name_catalog None =
     (Inr ?tables, [Where ColumnSchema None namespace_conditions])"
    by (simp add: tables_of_def fetch_def call_def pure_def and_then_def by_name_catalog_def
        fixed_catalog_def users_columns_def dd_getitem_def setitem_def)
  have i2: "indexes_of by_name_catalog None =
     (Inr ?by_name, [Where IndexColumnSchema None index_column_conditions,
               Where IndexSchema None namespace_conditions])"
    by (simp add: indexes_of_def fetch_def call_def pure_def and_then_def by_name_catalog_def
        fixed_catalog_def by_name_fetched_def by_name_indexes_def dd_getitem_def setitem_def)
  have k: "''Users'' \<in> set (keys ?tables)"
    by (simp add: keys_def)
  have m1: "map_of ([] :: (string, (string, index_entry) dict) dict) ''Users'' = None \<or>
      (\<exists>d. map_of ([] :: (string, (string, index_entry) dict) dict) ''Users'' = Some d \<and>
           map_of d ''PRIMARY_KEY'' = None)"
    by simp
  have m2: "map_of ?by_name ''Users'' = None \<or>
      (\<exists>d. map_of ?by_name ''Users'' = Some d \<and> map_of d ''PRIMARY_KEY'' = None)"
    by simp
  show ?thesis
    using models_missing_primary_key [OF t1 i1 k m1] models_missing_primary_key [OF t2 i2 k m2]
      t1 i1 t2 i2
    by simp
qed

text \<open>
  C4. When \<open>models()\<close> returns a dictionary without the request's table,
  \<open>column_update\<close> of a \<open>ColumnUpdate\<close> and \<open>index_update\<close> of an \<open>IndexUpdate\<close> fail with
  \<open>KeyError(table)\<close>, the failure the specification names UnknownTableError, and the
  trace is that of \<open>models()\<close> alone, which holds no call of \<open>update_schema\<close>.
\<close>

theorem update_of_unknown_table:
  assumes M: "models env None = (Inr all_models, tr)"
    and absent: "sc_table schema_change \<notin> set (keys all_models)"
  shows "(sc_class schema_change = ColumnUpdate \<longrightarrow>
            column_update env schema_change = (Inl (KeyError (sc_table schema_change)), tr)) \<and>
         (sc_class schema_change = IndexUpdate \<longrightarrow>
            index_update env schema_change = (Inl (KeyError (sc_table schema_change)), tr)) \<and>
         submissions tr = []"
proof -
  have "submissions tr = []"
    using models_no_submission [of env None] M by simp
  then show ?thesis
    by (simp add: column_update_def index_update_def isinstance_def M and_then_Inr and_then_Inl
        pure_def getitem_absent [OF absent])
qed

theorem update_of_unknown_table_witness:
  "fst (models users_catalog None) =
     Inr [(''Users'', \<lparr>name = ''Model_Users'', primary_index_keys = [''id''],
                        schema = [(''id'', ''INT64''), (''name'', ''STRING'')],
                        table = ''Users''\<rparr>)] \<and>
   column_update users_catalog (accepted_change ColumnUpdate ''Orders'') =
     (Inl (KeyError ''Orders''), snd (models users_catalog None)) \<and>
   index_update users_catalog (accepted_change IndexUpdate ''Orders'') =
     (Inl (KeyError ''Orders''), snd (models users_catalog None)) \<and>
   submissions (snd (models users_catalog None)) = []"
proof -
  let ?ms = "[(''Users'', \<lparr>name = ''Model_Users'', primary_index_keys = [''id''],
                        schema = [(''id'', ''INT64''), (''name'', ''STRING'')],
                        table = ''Users''\<rparr>)]"
  have c: "sc_table (accepted_change ColumnUpdate ''Orders'') \<notin> set (keys ?ms)"
    and i: "sc_table (accepted_change IndexUpdate ''Orders'') \<notin> set (keys ?ms)"
    by (simp_all add: accepted_change_def keys_def)
  show ?thesis
    using update_of_unknown_table [OF users_models c] update_of_unknown_table [OF users_models i]
    by (simp add: users_models accepted_change_def)
qed

text \<open>
  C5. When \<open>models()\<close> returns a dictionary that has the request's table, \<open>create_table\<close>
  of a \<open>CreateTableUpdate\<close> fails with \<open>AssertionError\<close> (the second \<open>assert\<close>, the failure
  the specification names TableAlreadyExistsError), and the trace is that of \<open>models()\<close>
  alone, which holds no call of \<open>update_schema\<close>.
\<close>

theorem create_of_existing_table:
  assumes C: "sc_class schema_change = CreateTableUpdate"
    and M: "models env None = (Inr all_models, tr)"
    and present: "sc_table schema_change \<in> set (keys all_models)"
  shows "create_table env schema_change = (Inl AssertionError, tr) \<and> submissions tr = []"
proof -
  have "submissions tr = []"
    using models_no_submission [of env None] M by simp
  then show ?thesis
    by (simp add: create_table_def isinstance_def C M and_then_Inr pure_def present)
qed

theorem create_of_existing_table_witness:
  "sc_class (accepted_change CreateTableUpdate ''Users'') = CreateTableUpdate \<and>
   sc_table (accepted_change CreateTableUpdate ''Users'') \<in> set (keys
     [(''Users'', \<lparr>name = ''Model_Users'', primary_index_keys = [''id''],
                        schema = [(''id'', ''INT64''), (''name'', ''STRING'')],
                        table = ''Users''\<rparr>)]) \<and>
   create_table users_catalog (accepted_change CreateTableUpdate ''Users'') =
     (Inl AssertionError, snd (models users_catalog None)) \<and>
   submissions (snd (models users_catalog None)) = []"
proof -
  let ?ms = "[(''Users'', \<lparr>name = ''Model_Users'', primary_index_keys = [''id''],
                        schema = [(''id'', ''INT64''), (''name'', ''STRING'')],
                        table = ''Users''\<rparr>)]"
  have c: "sc_class (accepted_change CreateTableUpdate ''Users'') = CreateTableUpdate"
    by (simp add: accepted_change_def)
  have p: "sc_table (accepted_change CreateTableUpdate ''Users'') \<in> set (keys ?ms)"
    by (simp add: accepted_change_def keys_def)
  show ?thesis
    using create_of_existing_table [OF c users_models p] c p
    by (simp add: users_models)
qed

text \<open>
  C1. Let the fetch of index-column rows, given the conditions the indexes read passes
  to it, honour the filter and the order they ask for over the rows \<open>relation\<close>, and let
  the fetch of index rows return. Then the indexes read returns, and for every pair of a
  table \<open>t\<close> and an index \<open>i\<close> the column sequence collected for the pair is the column
  names of a list \<open>rows\<close> that holds exactly the rows of \<open>relation\<close> for \<open>(t, i)\<close> with an
  ordinal position (none of those without one) and is ascending in the ordinal position;
  with pairwise different positions it is those rows sorted by position, whatever their
  order in \<open>relation\<close>. Every entry of the returned index map for \<open>(t, i)\<close> has that
  sequence as its \<open>columns\<close>, and there is such an entry when an index row for \<open>(t, i)\<close>
  was fetched. The rows of \<open>relation\<close> are those of every catalog and schema; the
  equality conditions passed keep those of the catalog and schema with the empty name.
\<close>

theorem index_columns_in_ordinal_order:
  assumes F: "IndexColumnSchema_where env txn index_column_conditions = Inr fetched"
    and HF: "honours_filter ics_column relation index_column_conditions fetched"
    and HO: "honours_order ics_column index_column_conditions fetched"
    and X: "IndexSchema_where env txn namespace_conditions = Inr index_schemas"
  shows "\<exists>indexes. fst (indexes_of env txn) = Inr indexes \<and>
           (\<forall>t i. \<exists>rows.
              mset rows = mset (index_rows relation t i) \<and>
              sorted (map ics_ordinal_position rows) \<and>
              (distinct (map ics_ordinal_position (index_rows relation t i)) \<longrightarrow>
                 rows = sort_key ics_ordinal_position (index_rows relation t i)) \<and>
              dd_lookup (index_columns_loop [] fetched) (t, i) = map ics_column_name rows \<and>
              (\<forall>e. nested_lookup indexes t i = Some e \<longrightarrow>
                 columns e = map ics_column_name rows) \<and>
              ((\<exists>r \<in> set index_schemas. ix_table_name r = t \<and> ix_index_name r = i) \<longrightarrow>
                 (\<exists>e. nested_lookup indexes t i = Some e)))"
proof -
  let ?indexes = "indexes_loop (index_columns_loop [] fetched) [] index_schemas"
  have r: "fst (indexes_of env txn) = Inr ?indexes"
    using F X by (rule indexes_of_result)
  have "\<exists>rows.
          mset rows = mset (index_rows relation t i) \<and>
          sorted (map ics_ordinal_position rows) \<and>
          (distinct (map ics_ordinal_position (index_rows relation t i)) \<longrightarrow>
             rows = sort_key ics_ordinal_position (index_rows relation t i)) \<and>
          dd_lookup (index_columns_loop [] fetched) (t, i) = map ics_column_name rows \<and>
          (\<forall>e. nested_lookup ?indexes t i = Some e \<longrightarrow>
             columns e = map ics_column_name rows) \<and>
          ((\<exists>r \<in> set index_schemas. ix_table_name r = t \<and> ix_index_name r = i) \<longrightarrow>
             (\<exists>e. nested_lookup ?indexes t i = Some e))" for t i
  proof -
    let ?rows = "filter (\<lambda>r. (ics_table_name r, ics_index_name r) = (t, i)) fetched"
    have m: "mset ?rows = mset (index_rows relation t i)"
      using HF by (rule group_of_fetched)
    have s: "sorted (map ics_ordinal_position ?rows)"
      using HO by (rule group_of_fetched_sorted)
    have u: "?rows = sort_key ics_ordinal_position (index_rows relation t i)"
      if "distinct (map ics_ordinal_position (index_rows relation t i))"
      using m s that by (rule sorted_distinct_keys_unique)
    have c: "dd_lookup (index_columns_loop [] fetched) (t, i) = map ics_column_name ?rows"
      by (rule fetched_columns)
    have e: "columns e = map ics_column_name ?rows"
      if "nested_lookup ?indexes t i = Some e" for e
      using indexes_loop_columns [OF that] c by simp
    have p: "\<exists>e. nested_lookup ?indexes t i = Some e"
      if "\<exists>r \<in> set index_schemas. ix_table_name r = t \<and> ix_index_name r = i"
      using that by (rule indexes_loop_present)
    show ?thesis
      using m s u c e p by blast
  qed
  then show ?thesis
    using r by blast
qed

theorem index_columns_in_ordinal_order_witness:
  "IndexColumnSchema_where by_name_catalog None index_column_conditions = Inr by_name_fetched \<and>
   honours_filter ics_column by_name_relation index_column_conditions by_name_fetched \<and>
   honours_order ics_column index_column_conditions by_name_fetched \<and>
   IndexSchema_where by_name_catalog None namespace_conditions = Inr by_name_indexes \<and>
   (\<exists>indexes. fst (indexes_of by_name_catalog None) = Inr indexes \<and>
      map_option columns (nested_lookup indexes ''Users'' ''ByName'') = Some [''name'', ''email''])"
proof -
  have F: "IndexColumnSchema_where by_name_catalog None index_column_conditions =
             Inr by_name_fetched"
    and X: "IndexSchema_where by_name_catalog None namespace_conditions = Inr by_name_indexes"
    by (simp_all add: by_name_catalog_def fixed_catalog_def)
  from index_columns_in_ordinal_order [OF F by_name_honours_filter by_name_honours_order X]
  obtain indexes where
    i: "fst (indexes_of by_name_catalog None) = Inr indexes"
    and a: "\<And>t i. \<exists>rows.
              mset rows = mset (index_rows by_name_relation t i) \<and>
              sorted (map ics_ordinal_position rows) \<and>
              (distinct (map ics_ordinal_position (index_rows by_name_relation t i)) \<longrightarrow>
                 rows = sort_key ics_ordinal_position (index_rows by_name_relation t i)) \<and>
              dd_lookup (index_columns_loop [] by_name_fetched) (t, i) =
                map ics_column_name rows \<and>
              (\<forall>e. nested_lookup indexes t i = Some e \<longrightarrow>
                 columns e = map ics_column_name rows) \<and>
              ((\<exists>r \<in> set by_name_indexes. ix_table_name r = t \<and> ix_index_name r = i) \<longrightarrow>
                 (\<exists>e. nested_lookup indexes t i = Some e))"
    by blast
  from a [of "''Users''" "''ByName''"] obtain rows where
    u: "distinct (map ics_ordinal_position (index_rows by_name_relation ''Users'' ''ByName'')) \<longrightarrow>
          rows = sort_key ics_ordinal_position (index_rows by_name_relation ''Users'' ''ByName'')"
    and e: "\<forall>e. nested_lookup indexes ''Users'' ''ByName'' = Some e \<longrightarrow>
              columns e = map ics_column_name rows"
    and p: "(\<exists>r \<in> set by_name_indexes. ix_table_name r = ''Users'' \<and> ix_index_name r = ''ByName'') \<longrightarrow>
              (\<exists>e. nested_lookup indexes ''Users'' ''ByName'' = Some e)"
    by blast
  have g: "index_rows by_name_relation ''Users'' ''ByName'' =
             [\<lparr>ics_table_catalog = '''', ics_table_schema = '''',
               ics_table_name = ''Users'', ics_index_name = ''ByName'',
               ics_column_name = ''email'', ics_ordinal_position = Some 1\<rparr>,
              \<lparr>ics_table_catalog = '''', ics_table_schema = '''',
               ics_table_name = ''Users'', ics_index_name = ''ByName'',
               ics_column_name = ''name'', ics_ordinal_position = Some 0\<rparr>]"
    by (simp add: index_rows_def by_name_relation_def)
  have rows: "map ics_column_name rows = [''name'', ''email'']"
    using u by (simp add: g)
  have "\<exists>e. nested_lookup indexes ''Users'' ''ByName'' = Some e"
    using p by (simp add: by_name_indexes_def)
  then show ?thesis
    using F by_name_honours_filter by_name_honours_order X i e rows by auto
qed

text \<open>
  C7. Let \<open>models()\<close> return. When the \<open>validate\<close> call an operation makes on its request
  raises (on the model of the request's table for \<open>column_update\<close> and \<open>index_update\<close>,
  without argument for \<open>create_table\<close> of a table not yet there), the operation fails
  with that exception, and its trace is the catalog reads followed by the one
  \<open>validate\<close> call: \<open>ddl\<close> is never called and nothing is handed to \<open>update_schema\<close>.
\<close>

theorem rejected_change_is_not_submitted:
  assumes M: "models env None = (Inr all_models, tr)"
  shows "(sc_class schema_change = ColumnUpdate \<and>
          map_of all_models (sc_table schema_change) = Some m \<and>
          sc_validate schema_change (Some m) = Inl e \<longrightarrow>
            column_update env schema_change = (Inl e, tr @ [Validate])) \<and>
         (sc_class schema_change = CreateTableUpdate \<and>
          sc_table schema_change \<notin> set (keys all_models) \<and>
          sc_validate schema_change None = Inl e \<longrightarrow>
            create_table env schema_change = (Inl e, tr @ [Validate])) \<and>
         (sc_class schema_change = IndexUpdate \<and>
          map_of all_models (sc_table schema_change) = Some m \<and>
          sc_validate schema_change (Some m) = Inl e \<longrightarrow>
            index_update env schema_change = (Inl e, tr @ [Validate])) \<and>
         Ddl \<notin> set (tr @ [Validate]) \<and> submissions (tr @ [Validate]) = []"
proof -
  have s: "submissions tr = []" and d: "Ddl \<notin> set tr"
    using models_no_submission [of env None] models_no_ddl [of env None] M by simp_all
  have c: "column_update env schema_change = (Inl e, tr @ [Validate])"
    if "sc_class schema_change = ColumnUpdate"
      and "map_of all_models (sc_table schema_change) = Some m"
      and "sc_validate schema_change (Some m) = Inl e"
    using that
    by (simp add: column_update_def isinstance_def M and_then_Inr and_then_Inl pure_def fetch_def call_def
        getitem_def)
  have t: "create_table env schema_change = (Inl e, tr @ [Validate])"
    if "sc_class schema_change = CreateTableUpdate"
      and "sc_table schema_change \<notin> set (keys all_models)"
      and "sc_validate schema_change None = Inl e"
    using that
    by (simp add: create_table_def isinstance_def M and_then_Inr and_then_Inl pure_def fetch_def call_def)
  have i: "index_update env schema_change = (Inl e, tr @ [Validate])"
    if "sc_class schema_change = IndexUpdate"
      and "map_of all_models (sc_table schema_change) = Some m"
      and "sc_validate schema_change (Some m) = Inl e"
    using that
    by (simp add: index_update_def isinstance_def M and_then_Inr and_then_Inl pure_def fetch_def call_def
        getitem_def)
  have "Ddl \<notin> set (tr @ [Validate])" and "submissions (tr @ [Validate]) = []"
    using s d by (simp_all add: submissions_def)
  then show ?thesis
    using c t i by blast
qed

theorem rejected_change_is_not_submitted_witness:
  "column_update users_catalog (rejected_change ColumnUpdate ''Users'') =
     (Inl (Raised ''InvalidSchemaChangeError''), snd (models users_catalog None) @ [Validate]) \<and>
   create_table users_catalog (rejected_change CreateTableUpdate ''Orders'') =
     (Inl (Raised ''InvalidSchemaChangeError''), snd (models users_catalog None) @ [Validate]) \<and>
   index_update users_catalog (rejected_change IndexUpdate ''Users'') =
     (Inl (Raised ''InvalidSchemaChangeError''), snd (models users_catalog None) @ [Validate]) \<and>
   Ddl \<notin> set (snd (models users_catalog None) @ [Validate]) \<and>
   submissions (snd (models users_catalog None) @ [Validate]) = []"
proof -
  let ?m = "\<lparr>name = ''Model_Users'', primary_index_keys = [''id''],
             schema = [(''id'', ''INT64''), (''name'', ''STRING'')], table = ''Users''\<rparr>"
  let ?e = "Raised ''InvalidSchemaChangeError''"
  note r = rejected_change_is_not_submitted [OF users_models, where m = ?m and e = ?e]
  show ?thesis
    using r [of "rejected_change ColumnUpdate ''Users''"]
      r [of "rejected_change CreateTableUpdate ''Orders''"]
      r [of "rejected_change IndexUpdate ''Users''"]
    by (simp add: users_models rejected_change_def keys_def)
qed

text \<open>
  C9. Let the fetch of index-column rows, given the conditions the indexes read passes
  to it, honour the filter they ask for over the rows \<open>relation\<close>, and let the fetched
  index rows have pairwise different (table, index) names, as the key of the catalog's
  index relation makes them. For every fetched index row \<open>r\<close> for whose (table, index)
  pair \<open>relation\<close> holds no row with an ordinal position, the returned index map has
  under that pair the entry with an empty column sequence and the type, uniqueness and
  state of \<open>r\<close>.
\<close>

theorem entry_without_index_columns:
  assumes F: "IndexColumnSchema_where env txn index_column_conditions = Inr fetched"
    and HF: "honours_filter ics_column relation index_column_conditions fetched"
    and X: "IndexSchema_where env txn namespace_conditions = Inr index_schemas"
    and K: "distinct (map (\<lambda>r. (ix_table_name r, ix_index_name r)) index_schemas)"
    and R: "r \<in> set index_schemas"
    and N: "index_rows relation (ix_table_name r) (ix_index_name r) = []"
  shows "\<exists>indexes. fst (indexes_of env txn) = Inr indexes \<and>
           nested_lookup indexes (ix_table_name r) (ix_index_name r) =
             Some \<lparr>columns = [], type = ix_index_type r, unique = ix_is_unique r,
                   state = ix_index_state r\<rparr>"
proof -
  let ?rows = "filter (\<lambda>r'. (ics_table_name r', ics_index_name r') =
                 (ix_table_name r, ix_index_name r)) fetched"
  have "mset ?rows = mset (index_rows relation (ix_table_name r) (ix_index_name r))"
    using HF by (rule group_of_fetched)
  then have "?rows = []"
    using N by simp
  then have c: "dd_lookup (index_columns_loop [] fetched) (ix_table_name r, ix_index_name r) = []"
    by (simp add: fetched_columns)
  have "find (\<lambda>r'. (ix_table_name r', ix_index_name r') = (ix_table_name r, ix_index_name r))
          (rev index_schemas) = Some r"
    using K R by (intro find_unique) (simp_all add: rev_map [symmetric])
  then have l: "find (\<lambda>r'. ix_table_name r' = ix_table_name r \<and> ix_index_name r' = ix_index_name r)
                  (rev index_schemas) = Some r"
    by simp
  have "nested_lookup (indexes_loop (index_columns_loop [] fetched) [] index_schemas)
               (ix_table_name r) (ix_index_name r) =
             Some \<lparr>columns = [], type = ix_index_type r, unique = ix_is_unique r,
                   state = ix_index_state r\<rparr>"
    using l c by (simp add: indexes_loop_lookup)
  then show ?thesis
    using indexes_of_result [OF F X] by simp
qed

theorem entry_without_index_columns_witness:
  "IndexColumnSchema_where two_indexes_catalog None index_column_conditions =
     Inr by_name_fetched \<and>
   honours_filter ics_column by_name_relation index_column_conditions by_name_fetched \<and>
   IndexSchema_where two_indexes_catalog None namespace_conditions = Inr two_indexes \<and>
   distinct (map (\<lambda>r. (ix_table_name r, ix_index_name r)) two_indexes) \<and>
   \<lparr>ix_table_name = ''Users'', ix_index_name = ''ByEmail'', ix_index_type = ''INDEX'',
     ix_is_unique = True, ix_index_state = ''WRITE_ONLY''\<rparr> \<in> set two_indexes \<and>
   index_rows by_name_relation ''Users'' ''ByEmail'' = [] \<and>
   (\<exists>indexes. fst (indexes_of two_indexes_catalog None) = Inr indexes \<and>
      nested_lookup indexes ''Users'' ''ByEmail'' =
        Some \<lparr>columns = [], type = ''INDEX'', unique = True, state = ''WRITE_ONLY''\<rparr> \<and>
      map_option columns (nested_lookup indexes ''Users'' ''ByName'') =
        Some [''name'', ''email''])"
proof -
  let ?r = "\<lparr>ix_table_name = ''Users'', ix_index_name = ''ByEmail'', ix_index_type = ''INDEX'',
            ix_is_unique = True, ix_index_state = ''WRITE_ONLY''\<rparr>"
  have F: "IndexColumnSchema_where two_indexes_catalog None index_column_conditions =
             Inr by_name_fetched"
    and X: "IndexSchema_where two_indexes_catalog None namespace_conditions = Inr two_indexes"
    by (simp_all add: two_indexes_catalog_def fixed_catalog_def)
  have K: "distinct (map (\<lambda>r. (ix_table_name r, ix_index_name r)) two_indexes)"
    and R: "?r \<in> set two_indexes"
    by (simp_all add: two_indexes_def)
  have N: "index_rows by_name_relation (ix_table_name ?r) (ix_index_name ?r) = []"
    by (simp add: index_rows_def by_name_relation_def)
  have b: "map_option columns
             (nested_lookup (indexes_loop (index_columns_loop [] by_name_fetched) [] two_indexes)
                ''Users'' ''ByName'') = Some [''name'', ''email'']"
    by (simp add: two_indexes_def by_name_fetched_def dd_getitem_def setitem_def
        nested_lookup_def)
  from entry_without_index_columns [OF F by_name_honours_filter X K R N] obtain indexes where
    i: "fst (indexes_of two_indexes_catalog None) = Inr indexes"
    and e: "nested_lookup indexes ''Users'' ''ByEmail'' =
              Some \<lparr>columns = [], type = ''INDEX'', unique = True, state = ''WRITE_ONLY''\<rparr>"
    by auto
  have "indexes = indexes_loop (index_columns_loop [] by_name_fetched) [] two_indexes"
    using i indexes_of_result [OF F X] by simp
  then show ?thesis
    using F by_name_honours_filter X K R N i e b by auto
qed

end
